theory Spec2Isabelle
  imports Main "HOL-Library.Word" "HOL-Library.List_Lexorder" "HOL-Library.Multiset"
begin

section \<open>Data model of the message-application engine\<close>

text \<open>
  The engine is the Go package \<open>core\<close> (\<open>ProcessBlock\<close>, \<open>ProcessTipSet\<close>,
  \<open>ApplyMessage\<close>, \<open>attemptApplyMessage\<close>, \<open>ApplyMessages\<close>, \<open>CallQueryMethod\<close>),
  found in the second part of \<open>src/wallet/util.go\<close>.
  The packages it calls (\<open>state\<close>, \<open>vm\<close>, \<open>vm/errors\<close>, \<open>types\<close>, \<open>actor\<close>,
  \<open>account\<close>) are not part of the sources; what the engine needs of them is modelled
  below from the specification, and the virtual machine itself is a parameter.
\<close>

type_synonym address = string
type_synonym cid = string
type_synonym byte = "8 word"
type_synonym bytes = "byte list"

text \<open>
  Modelled from the spec: the actor record \<open>{code, nonce, balance, head}\<close> of package
  \<open>actor\<close>. The nonce is an unsigned 64-bit integer in Go, so \<open>IncNonce\<close> wraps.
\<close>

record actor =
  Code :: "cid option"
  Nonce :: "64 word"
  Balance :: int
  Head :: "cid option"

text \<open>Go's \<open>&actor.Actor{}\<close>: every field at its zero value.\<close>

definition emptyActor :: actor where
  "emptyActor = \<lparr>Code = None, Nonce = 0, Balance = 0, Head = None\<rparr>"

definition IncNonce :: "actor \<Rightarrow> actor" where
  "IncNonce a = a\<lparr>Nonce := Nonce a + 1\<rparr>"

text \<open>Modelled from the spec: the code identifier of account actors, \<open>types.AccountActorCodeCid\<close>.\<close>

definition AccountActorCodeCid :: cid where
  "AccountActorCodeCid = ''account''"

text \<open>Modelled from the spec: the unsigned message of package \<open>types\<close>.\<close>

record message =
  From :: address
  To :: address
  MsgNonce :: "64 word"
  Value :: "int option"
  Method :: string
  Params :: bytes

record signed_message =
  Message :: message
  Signature :: bytes

text \<open>
  Modelled from the spec: \<open>types.NewQueryMessage\<close>; a query message carries neither
  nonce nor value.
\<close>

definition NewQueryMessage :: "address \<Rightarrow> address \<Rightarrow> string \<Rightarrow> bytes \<Rightarrow> message" where
  "NewQueryMessage from to method params =
     \<lparr>From = from, To = to, MsgNonce = 0, Value = None, Method = method, Params = params\<rparr>"

record message_receipt =
  ExitCode :: "8 word"
  Return :: "bytes list"

subsection \<open>Errors\<close>

text \<open>
  Go compares the sentinel errors by identity (\<open>err == errNonceTooLow\<close>). Every sentinel
  is therefore a constructor of its own; a revert error allocated anywhere else is
  \<open>OtherRevert\<close> with its text, and is equal to no sentinel whatever its text says.
\<close>

datatype revert_cause =
    AccountNotFound
  | NonceTooHigh
  | NonceTooLow
  | NonAccountActor
  | SelfSend
  | CannotTransferNegativeValue
  | InsufficientBalance
  | OtherRevert string

text \<open>
  Modelled from the spec: the error taxonomy of package \<open>vm/errors\<close> (fault, revert,
  permanent and temporary apply error), the not-found error of package \<open>state\<close>, and
  any other Go error.
\<close>

datatype verror =
    FaultError string
  | FaultErrorWrap verror string
  | RevertError revert_cause
  | ApplyErrorPermanent verror string
  | ApplyErrorTemporary verror string
  | ActorNotFoundError
  | PlainError string

fun IsFault :: "verror \<Rightarrow> bool" where
  "IsFault (FaultError _) = True"
| "IsFault (FaultErrorWrap _ _) = True"
| "IsFault _ = False"

fun ShouldRevert :: "verror \<Rightarrow> bool" where
  "ShouldRevert (RevertError _) = True"
| "ShouldRevert _ = False"

fun IsApplyErrorPermanent :: "verror \<Rightarrow> bool" where
  "IsApplyErrorPermanent (ApplyErrorPermanent _ _) = True"
| "IsApplyErrorPermanent _ = False"

fun IsApplyErrorTemporary :: "verror \<Rightarrow> bool" where
  "IsApplyErrorTemporary (ApplyErrorTemporary _ _) = True"
| "IsApplyErrorTemporary _ = False"

fun IsActorNotFoundError :: "verror \<Rightarrow> bool" where
  "IsActorNotFoundError ActorNotFoundError = True"
| "IsActorNotFoundError _ = False"

definition errAccountNotFound :: verror where
  "errAccountNotFound = RevertError AccountNotFound"

definition errNonceTooHigh :: verror where
  "errNonceTooHigh = RevertError NonceTooHigh"

definition errNonceTooLow :: verror where
  "errNonceTooLow = RevertError NonceTooLow"

definition errNonAccountActor :: verror where
  "errNonAccountActor = RevertError NonAccountActor"

definition errSelfSend :: verror where
  "errSelfSend = RevertError SelfSend"

text \<open>The entry \<open>errors.Errors[errors.ErrCannotTransferNegativeValue]\<close> of the VM's error table.\<close>

definition errCannotTransferNegativeValue :: verror where
  "errCannotTransferNegativeValue = RevertError CannotTransferNegativeValue"

subsection \<open>State tree and its overlay\<close>

text \<open>
  Modelled from the spec: the state tree of package \<open>state\<close>, a mapping from address to
  actor record with \<open>get\<close>, \<open>set\<close> and \<open>get-or-create\<close>. A slot that the store cannot
  read back is \<open>Unreadable\<close>: its lookup fails with an error that is not the not-found
  error. The tree's content stands for its root.
\<close>

datatype slot = Absent | Present actor | Unreadable

type_synonym tree = "address \<Rightarrow> slot"

definition GetActor :: "tree \<Rightarrow> address \<Rightarrow> verror + actor" where
  "GetActor st a =
     (case st a of
        Present act \<Rightarrow> Inr act
      | Absent \<Rightarrow> Inl ActorNotFoundError
      | Unreadable \<Rightarrow> Inl (PlainError ''failed to load actor''))"

definition SetActor :: "tree \<Rightarrow> address \<Rightarrow> actor \<Rightarrow> verror + tree" where
  "SetActor st a act = Inr (st(a := Present act))"

text \<open>The base tree's get-or-create returns the fresh record without storing it.\<close>

definition GetOrCreateActor :: "tree \<Rightarrow> address \<Rightarrow> (verror + actor) \<Rightarrow> verror + actor" where
  "GetOrCreateActor st a creator =
     (case GetActor st a of
        Inl err \<Rightarrow> (if IsActorNotFoundError err then creator else Inl err)
      | Inr act \<Rightarrow> Inr act)"

text \<open>
  Modelled from the spec: the cached state tree of package \<open>state\<close>, an overlay that
  records tentative writes on top of a base tree without modifying it; \<open>Commit\<close> folds
  the buffered records into the base tree.
\<close>

record cached_tree =
  ct_st :: tree
  ct_cache :: "address \<rightharpoonup> actor"

definition NewCachedStateTree :: "tree \<Rightarrow> cached_tree" where
  "NewCachedStateTree st = \<lparr>ct_st = st, ct_cache = Map.empty\<rparr>"

definition CachedGetActor :: "cached_tree \<Rightarrow> address \<Rightarrow> cached_tree \<times> (verror + actor)" where
  "CachedGetActor t a =
     (case ct_cache t a of
        Some act \<Rightarrow> (t, Inr act)
      | None \<Rightarrow>
          (case GetActor (ct_st t) a of
             Inl err \<Rightarrow> (t, Inl err)
           | Inr act \<Rightarrow> (t\<lparr>ct_cache := (ct_cache t)(a \<mapsto> act)\<rparr>, Inr act)))"

definition CachedGetOrCreateActor ::
  "cached_tree \<Rightarrow> address \<Rightarrow> (verror + actor) \<Rightarrow> cached_tree \<times> (verror + actor)" where
  "CachedGetOrCreateActor t a creator =
     (case ct_cache t a of
        Some act \<Rightarrow> (t, Inr act)
      | None \<Rightarrow>
          (case GetOrCreateActor (ct_st t) a creator of
             Inl err \<Rightarrow> (t, Inl err)
           | Inr act \<Rightarrow> (t\<lparr>ct_cache := (ct_cache t)(a \<mapsto> act)\<rparr>, Inr act)))"

definition Commit :: "cached_tree \<Rightarrow> verror + tree" where
  "Commit t =
     Inr (\<lambda>a. case ct_cache t a of Some act \<Rightarrow> Present act | None \<Rightarrow> ct_st t a)"

text \<open>
  Modelled from the spec: \<open>account.UpgradeActor\<close> assigns the account code and
  preserves balance and nonce.
\<close>

definition UpgradeActor :: "actor \<Rightarrow> verror + actor" where
  "UpgradeActor act = Inr (act\<lparr>Code := Some AccountActorCodeCid\<rparr>)"

subsection \<open>The virtual machine\<close>

text \<open>
  \<open>vm.Send\<close> is a black box. It receives the context built by \<open>vm.NewVMContext\<close>
  (sender, receiver, message, overlay, storage, block height) and hands back the
  overlay's buffered records and the storage as it left them, with return values, exit
  code and error. It holds no reference to the base tree, so it cannot hand back a
  changed base. The storage is an opaque value of type \<open>'s\<close>.
\<close>

record 's vm_context =
  vc_from :: "actor option"
  vc_to :: actor
  vc_message :: message
  vc_state :: cached_tree
  vc_storage :: 's
  vc_blockHeight :: "64 word option"

record 's send_result =
  sr_cache :: "address \<rightharpoonup> actor"
  sr_storage :: 's
  sr_ret :: "bytes list"
  sr_exitCode :: "8 word"
  sr_err :: "verror option"

type_synonym 's vm = "'s vm_context \<Rightarrow> 's send_result"

definition NewVMContext ::
  "actor option \<Rightarrow> actor \<Rightarrow> message \<Rightarrow> cached_tree \<Rightarrow> 's \<Rightarrow> 64 word option \<Rightarrow> 's vm_context" where
  "NewVMContext from to msg st store bh =
     \<lparr>vc_from = from, vc_to = to, vc_message = msg, vc_state = st,
      vc_storage = store, vc_blockHeight = bh\<rparr>"

section \<open>The engine\<close>

record application_result =
  Receipt :: "message_receipt option"
  ExecutionError :: "verror option"

text \<open>
  \<open>attemptApplyMessage\<close> works on the overlay only. The result is the overlay and the
  storage as the call left them, and Go's pair of receipt and error. The sender record
  is a pointer into the overlay's buffer, so its upgrade in place is a write to the
  buffer.
\<close>

definition attemptApplyMessage ::
  "'s vm \<Rightarrow> cached_tree \<Rightarrow> 's \<Rightarrow> message \<Rightarrow> 64 word option
     \<Rightarrow> cached_tree \<times> 's \<times> message_receipt option \<times> verror option" where
  "attemptApplyMessage send st store msg bh =
     (case CachedGetActor st (From msg) of
        (st1, Inl err) \<Rightarrow>
          if IsActorNotFoundError err then (st1, store, None, Some errAccountNotFound)
          else (st1, store, None, Some (FaultErrorWrap err (''failed to get From actor '' @ From msg)))
      | (st1, Inr fromActor) \<Rightarrow>
          if From msg = To msg then (st1, store, None, Some errSelfSend)
          else
            (case CachedGetOrCreateActor st1 (To msg) (Inr emptyActor) of
               (st2, Inl err) \<Rightarrow> (st2, store, None, Some (FaultErrorWrap err ''failed to get To actor''))
             | (st2, Inr toActor) \<Rightarrow>
                 (case (if Code fromActor = None then UpgradeActor fromActor else Inr fromActor) of
                    Inl err \<Rightarrow> (st2, store, None, Some (FaultErrorWrap err ''failed to upgrade empty actor''))
                  | Inr fromActor' \<Rightarrow>
                      (let st3 = st2\<lparr>ct_cache := (ct_cache st2)(From msg \<mapsto> fromActor')\<rparr> in
                       if Code fromActor' \<noteq> Some AccountActorCodeCid
                         then (st3, store, None, Some errNonAccountActor)
                       else if MsgNonce msg < Nonce fromActor'
                         then (st3, store, None, Some errNonceTooLow)
                       else if MsgNonce msg > Nonce fromActor'
                         then (st3, store, None, Some errNonceTooHigh)
                       else
                         (let vmCtx = NewVMContext (Some fromActor') toActor msg st3 store bh;
                              out = send vmCtx;
                              st4 = st3\<lparr>ct_cache := sr_cache out\<rparr>;
                              store' = sr_storage out
                          in case sr_err out of
                               Some vmErr \<Rightarrow>
                                 if IsFault vmErr then (st4, store', None, Some vmErr)
                                 else (st4, store',
                                       Some \<lparr>ExitCode = sr_exitCode out,
                                             Return = foldl (\<lambda>r b. r @ [b]) [] (sr_ret out)\<rparr>,
                                       Some vmErr)
                             | None \<Rightarrow>
                                 (st4, store',
                                  Some \<lparr>ExitCode = sr_exitCode out,
                                        Return = foldl (\<lambda>r b. r @ [b]) [] (sr_ret out)\<rparr>,
                                  None))))))"

text \<open>
  \<open>ApplyMessage\<close> mutates the base tree in place; the model returns the base tree and
  the storage as the call left them, whatever the outcome, next to Go's result
  (\<open>Inl\<close> the error, \<open>Inr\<close> the application result). The three stages are the
  source's: commit or bail out, reject the classified causes, bump the nonce.
\<close>

definition ApplyMessage ::
  "'s vm \<Rightarrow> tree \<Rightarrow> 's \<Rightarrow> message \<Rightarrow> 64 word option
     \<Rightarrow> tree \<times> 's \<times> (verror + application_result)" where
  "ApplyMessage send st store msg bh =
     (case attemptApplyMessage send (NewCachedStateTree st) store msg bh of
        (cachedStateTree, store', r, err) \<Rightarrow>
          (case (case err of
                   None \<Rightarrow>
                     (case Commit cachedStateTree of
                        Inl cerr \<Rightarrow> Inl (FaultErrorWrap cerr ''could not commit state tree'')
                      | Inr st' \<Rightarrow> Inr st')
                 | Some e \<Rightarrow>
                     if IsFault e then Inl e
                     else if \<not> ShouldRevert e
                       then Inl (FaultError ''someone is a bad programmer: only return revert and fault errors'')
                     else Inr st) of
             Inl ferr \<Rightarrow> (st, store', Inl ferr)
           | Inr st1 \<Rightarrow>
               (case (case err of
                        None \<Rightarrow> Inr None
                      | Some e \<Rightarrow>
                          if e = errAccountNotFound \<or> e = errNonceTooHigh
                            then Inl (ApplyErrorTemporary e ''apply message failed'')
                          else if e = errSelfSend \<or> e = errNonceTooLow \<or> e = errNonAccountActor
                                  \<or> e = errCannotTransferNegativeValue
                            then Inl (ApplyErrorPermanent e ''apply message failed'')
                          else Inr (Some e)) of
                  Inl aerr \<Rightarrow> (st1, store', Inl aerr)
                | Inr executionError \<Rightarrow>
                    (case GetActor st1 (From msg) of
                       Inl gerr \<Rightarrow> (st1, store', Inl (FaultErrorWrap gerr ''couldn't load from actor''))
                     | Inr fromActor \<Rightarrow>
                         (case SetActor st1 (From msg) (IncNonce fromActor) of
                            Inl serr \<Rightarrow>
                              (st1, store',
                               Inl (FaultErrorWrap serr ''could not set from actor after inc nonce''))
                          | Inr st2 \<Rightarrow>
                              (st2, store', Inr \<lparr>Receipt = r, ExecutionError = executionError\<rparr>))))))"

text \<open>
  \<open>CallQueryMethod\<close> returns Go's triple of return values, exit code and error; the
  model puts the base tree and the storage as the call left them in front.
\<close>

definition CallQueryMethod ::
  "'s vm \<Rightarrow> tree \<Rightarrow> 's \<Rightarrow> address \<Rightarrow> string \<Rightarrow> bytes \<Rightarrow> address \<Rightarrow> 64 word option
     \<Rightarrow> tree \<times> 's \<times> bytes list \<times> 8 word \<times> verror option" where
  "CallQueryMethod send st vms to method params from optBh =
     (case GetActor st to of
        Inl err \<Rightarrow> (st, vms, [], 1, Some (ApplyErrorPermanent err ''failed to get To actor''))
      | Inr toActor \<Rightarrow>
          (let cachedSt = NewCachedStateTree st;
               msg = NewQueryMessage from to method params;
               vmCtx = NewVMContext None toActor msg cachedSt vms optBh;
               out = send vmCtx
           in (st, sr_storage out, sr_ret out, sr_exitCode out, sr_err out)))"

subsection \<open>Batches, blocks and tipsets\<close>

text \<open>A Go function either returns its values or panics.\<close>

datatype 'a outcome = Returned 'a | Panicked string

record ApplyMessagesResponse =
  Results :: "application_result list"
  PermanentFailures :: "signed_message list"
  TemporaryFailures :: "signed_message list"
  SuccessfulMessages :: "signed_message list"
  PermanentErrors :: "verror list"
  TemporaryErrors :: "verror list"

text \<open>Go's zero value \<open>var emptyRet ApplyMessagesResponse\<close>.\<close>

definition emptyRet :: ApplyMessagesResponse where
  "emptyRet = \<lparr>Results = [], PermanentFailures = [], TemporaryFailures = [],
     SuccessfulMessages = [], PermanentErrors = [], TemporaryErrors = []\<rparr>"

text \<open>The \<open>for\<close> loop of \<open>ApplyMessages\<close>, with the response built so far.\<close>

fun ApplyMessages_loop ::
  "'s vm \<Rightarrow> 64 word option \<Rightarrow> signed_message list \<Rightarrow> tree \<Rightarrow> 's \<Rightarrow> ApplyMessagesResponse
     \<Rightarrow> tree \<times> 's \<times> (ApplyMessagesResponse \<times> verror option) outcome" where
  "ApplyMessages_loop send bh [] st vms ret = (st, vms, Returned (ret, None))"
| "ApplyMessages_loop send bh (smsg # rest) st vms ret =
     (case ApplyMessage send st vms (Message smsg) bh of
        (st', vms', Inl err) \<Rightarrow>
          if IsFault err then (st', vms', Returned (emptyRet, Some err))
          else if IsApplyErrorPermanent err then
            ApplyMessages_loop send bh rest st' vms'
              (ret\<lparr>PermanentFailures := PermanentFailures ret @ [smsg],
                    PermanentErrors := PermanentErrors ret @ [err]\<rparr>)
          else if IsApplyErrorTemporary err then
            ApplyMessages_loop send bh rest st' vms'
              (ret\<lparr>TemporaryFailures := TemporaryFailures ret @ [smsg],
                    TemporaryErrors := TemporaryErrors ret @ [err]\<rparr>)
          else (st', vms', Panicked ''someone is a bad programmer: error is neither fault, perm or temp'')
      | (st', vms', Inr r) \<Rightarrow>
          ApplyMessages_loop send bh rest st' vms'
            (ret\<lparr>SuccessfulMessages := SuccessfulMessages ret @ [smsg],
                  Results := Results ret @ [r]\<rparr>))"

definition ApplyMessages ::
  "'s vm \<Rightarrow> signed_message list \<Rightarrow> tree \<Rightarrow> 's \<Rightarrow> 64 word option
     \<Rightarrow> tree \<times> 's \<times> (ApplyMessagesResponse \<times> verror option) outcome" where
  "ApplyMessages send messages st vms bh = ApplyMessages_loop send bh messages st vms emptyRet"

text \<open>Modelled from the spec: the block of package \<open>types\<close>, as far as the engine reads it.\<close>

record block =
  Height :: "64 word"
  Messages :: "signed_message list"
  Ticket :: bytes


text \<open>
  Modelled from the spec: a tipset is a set of sibling blocks; the list is the order in
  which \<open>ToSlice\<close> hands them out. \<open>Height\<close> fails on the empty tipset, and
  \<open>types.SortBlocks\<close> orders the blocks by ticket, bytes compared lexicographically.
\<close>

type_synonym tipset = "block list"

definition TipSetHeight :: "tipset \<Rightarrow> verror + 64 word" where
  "TipSetHeight ts =
     (case ts of [] \<Rightarrow> Inl (PlainError ''empty tipset'') | blk # _ \<Rightarrow> Inr (Height blk))"

definition SortBlocks :: "block list \<Rightarrow> block list" where
  "SortBlocks blks = sort_key Ticket blks"

text \<open>
  Modelled from the spec: the sorted identifier set \<open>types.SortedCidSet\<close> is a set of
  identifiers; \<open>Add\<close> is insertion.
\<close>

record ProcessTipSetResponse =
  ts_Results :: "application_result list"
  Successes :: "cid set"
  Failures :: "cid set"

definition emptyRes :: ProcessTipSetResponse where
  "emptyRes = \<lparr>ts_Results = [], Successes = {}, Failures = {}\<rparr>"

text \<open>
  The content identifier of a signed message, \<open>msg.Cid()\<close>, hashes the encoded message
  and may fail; it is a parameter \<open>Cid\<close> of the tipset processor.
  The inner loop of \<open>ProcessTipSet\<close> that filters out duplicates: \<open>msgs\<close> are the
  messages kept so far, \<open>msgFilter\<close> the identifiers seen so far.
\<close>

fun ProcessTipSet_filter ::
  "(signed_message \<Rightarrow> verror + cid) \<Rightarrow> signed_message list \<Rightarrow> signed_message list \<Rightarrow> cid set
     \<Rightarrow> verror + signed_message list \<times> cid set" where
  "ProcessTipSet_filter Cid [] msgs msgFilter = Inr (msgs, msgFilter)"
| "ProcessTipSet_filter Cid (msg # rest) msgs msgFilter =
     (case Cid msg of
        Inl err \<Rightarrow> Inl (FaultErrorWrap err ''error getting message cid'')
      | Inr mCid \<Rightarrow>
          if mCid \<in> msgFilter then ProcessTipSet_filter Cid rest msgs msgFilter
          else ProcessTipSet_filter Cid rest (msgs @ [msg]) (insert mCid msgFilter))"

text \<open>The loops that add the identifiers of a list of messages to an identifier set.\<close>

fun ProcessTipSet_add ::
  "(signed_message \<Rightarrow> verror + cid) \<Rightarrow> signed_message list \<Rightarrow> cid set \<Rightarrow> verror + cid set" where
  "ProcessTipSet_add Cid [] s = Inr s"
| "ProcessTipSet_add Cid (msg # rest) s =
     (case Cid msg of
        Inl err \<Rightarrow> Inl (FaultErrorWrap err ''error getting message cid'')
      | Inr mCid \<Rightarrow> ProcessTipSet_add Cid rest (insert mCid s))"

text \<open>The loop of \<open>ProcessTipSet\<close> over the sorted blocks.\<close>

fun ProcessTipSet_loop ::
  "'s vm \<Rightarrow> (signed_message \<Rightarrow> verror + cid) \<Rightarrow> 64 word option \<Rightarrow> block list \<Rightarrow> tree \<Rightarrow> 's
     \<Rightarrow> cid set \<Rightarrow> ProcessTipSetResponse
     \<Rightarrow> tree \<times> 's \<times> (ProcessTipSetResponse \<times> verror option) outcome" where
  "ProcessTipSet_loop send Cid bh [] st vms msgFilter res = (st, vms, Returned (res, None))"
| "ProcessTipSet_loop send Cid bh (blk # tips) st vms msgFilter res =
     (case ProcessTipSet_filter Cid (Messages blk) [] msgFilter of
        Inl err \<Rightarrow> (st, vms, Returned (emptyRes, Some err))
      | Inr (msgs, msgFilter') \<Rightarrow>
          (case ApplyMessages send msgs st vms bh of
             (st', vms', Panicked p) \<Rightarrow> (st', vms', Panicked p)
           | (st', vms', Returned (amRes, Some err)) \<Rightarrow> (st', vms', Returned (emptyRes, Some err))
           | (st', vms', Returned (amRes, None)) \<Rightarrow>
               (case ProcessTipSet_add Cid (SuccessfulMessages amRes) (Successes res) of
                  Inl err \<Rightarrow> (st', vms', Returned (emptyRes, Some err))
                | Inr succ \<Rightarrow>
                    (case ProcessTipSet_add Cid (PermanentFailures amRes) (Failures res) of
                       Inl err \<Rightarrow> (st', vms', Returned (emptyRes, Some err))
                     | Inr fail1 \<Rightarrow>
                         (case ProcessTipSet_add Cid (TemporaryFailures amRes) fail1 of
                            Inl err \<Rightarrow> (st', vms', Returned (emptyRes, Some err))
                          | Inr fail2 \<Rightarrow>
                              ProcessTipSet_loop send Cid bh tips st' vms' msgFilter'
                                \<lparr>ts_Results = ts_Results res @ Results amRes,
                                 Successes = succ, Failures = fail2\<rparr>)))))"

definition ProcessTipSet ::
  "'s vm \<Rightarrow> (signed_message \<Rightarrow> verror + cid) \<Rightarrow> tipset \<Rightarrow> tree \<Rightarrow> 's
     \<Rightarrow> tree \<times> 's \<times> (ProcessTipSetResponse \<times> verror option) outcome" where
  "ProcessTipSet send Cid ts st vms =
     (case TipSetHeight ts of
        Inl err \<Rightarrow> (st, vms, Returned (emptyRes, Some (FaultErrorWrap err ''processing empty tipset'')))
      | Inr h \<Rightarrow>
          (let bh = Some h;
               msgFilter = {};
               tips = SortBlocks ts
           in ProcessTipSet_loop send Cid bh tips st vms msgFilter emptyRes))"

subsection \<open>A virtual machine to run the engine on\<close>

text \<open>
  Modelled from the spec: \<open>vm.Send\<close> is not part of the sources. This stand-in performs
  the plain value transfer of the spec's scenarios S1 and S5 on the overlay: a negative
  value and a balance that is too low are revert errors with exit code 1, and a method
  call on the receiver is not supported.
\<close>

definition transferVM :: "'s vm" where
  "transferVM ctx =
     (let msg = vc_message ctx;
          cache = ct_cache (vc_state ctx);
          unchanged = \<lparr>sr_cache = cache, sr_storage = vc_storage ctx, sr_ret = [],
                       sr_exitCode = 0, sr_err = None\<rparr>
      in if Method msg \<noteq> [] then
           unchanged\<lparr>sr_exitCode := 1, sr_err := Some (RevertError (OtherRevert ''missing export''))\<rparr>
         else
           (case (Value msg, vc_from ctx) of
              (Some v, Some fromActor) \<Rightarrow>
                if v < 0 then
                  unchanged\<lparr>sr_exitCode := 1, sr_err := Some errCannotTransferNegativeValue\<rparr>
                else if Balance fromActor < v then
                  unchanged\<lparr>sr_exitCode := 1, sr_err := Some (RevertError InsufficientBalance)\<rparr>
                else
                  unchanged\<lparr>sr_cache := cache
                    (From msg \<mapsto> fromActor\<lparr>Balance := Balance fromActor - v\<rparr>,
                     To msg \<mapsto> (vc_to ctx)\<lparr>Balance := Balance (vc_to ctx) + v\<rparr>)\<rparr>
            | _ \<Rightarrow> unchanged))"

text \<open>
  The state of the spec's scenarios: account \<open>A\<close> with nonce 3 and balance 100, and no
  actor at \<open>B\<close>. \<open>transferMsg\<close> is S1 (10 units from \<open>A\<close> to \<open>B\<close> at nonce 3),
  \<open>staleMsg\<close> is S2 (nonce 2), \<open>earlyMsg\<close> is S3 (nonce 4) and \<open>overdraftMsg\<close> is S5
  (more than the balance).
\<close>

definition accountA :: actor where
  "accountA = \<lparr>Code = Some AccountActorCodeCid, Nonce = 3, Balance = 100, Head = None\<rparr>"

definition tree0 :: tree where
  "tree0 = (\<lambda>_. Absent)(''A'' := Present accountA)"

definition transferMsg :: message where
  "transferMsg = \<lparr>From = ''A'', To = ''B'', MsgNonce = 3, Value = Some 10, Method = [], Params = []\<rparr>"

definition staleMsg :: message where
  "staleMsg = transferMsg\<lparr>MsgNonce := 2\<rparr>"

definition earlyMsg :: message where
  "earlyMsg = transferMsg\<lparr>MsgNonce := 4\<rparr>"

definition overdraftMsg :: message where
  "overdraftMsg = transferMsg\<lparr>Value := Some 1000\<rparr>"

definition signedTransfer :: signed_message where
  "signedTransfer = \<lparr>Message = transferMsg, Signature = [1]\<rparr>"

definition signedStale :: signed_message where
  "signedStale = \<lparr>Message = staleMsg, Signature = [2]\<rparr>"

definition goodBlock :: block where
  "goodBlock = \<lparr>Height = 7, Messages = [signedTransfer], Ticket = [1]\<rparr>"

definition badBlock :: block where
  "badBlock = \<lparr>Height = 7, Messages = [signedTransfer, signedStale], Ticket = [2]\<rparr>"

text \<open>
  Modelled from the spec: \<open>msg.Cid()\<close> is not part of the sources. This stand-in knows
  the two messages of the examples and fails on any other.
\<close>

definition testCid :: "signed_message \<Rightarrow> verror + cid" where
  "testCid smsg =
     (if Message smsg = transferMsg then Inr ''bafy-transfer''
      else if Message smsg = staleMsg then Inr ''bafy-stale''
      else Inl (PlainError ''cannot encode message''))"

subsection \<open>Notions used to state the properties\<close>



text \<open>
  Two responses put end to end, and a batch's outcome with a response put in front of
  its own: what a batch returns when it starts from a response that is not empty.
\<close>

definition appendResponse :: "ApplyMessagesResponse \<Rightarrow> ApplyMessagesResponse \<Rightarrow> ApplyMessagesResponse" where
  "appendResponse a b =
     \<lparr>Results = Results a @ Results b,
      PermanentFailures = PermanentFailures a @ PermanentFailures b,
      TemporaryFailures = TemporaryFailures a @ TemporaryFailures b,
      SuccessfulMessages = SuccessfulMessages a @ SuccessfulMessages b,
      PermanentErrors = PermanentErrors a @ PermanentErrors b,
      TemporaryErrors = TemporaryErrors a @ TemporaryErrors b\<rparr>"

fun withPrefix ::
  "ApplyMessagesResponse \<Rightarrow> tree \<times> 's \<times> (ApplyMessagesResponse \<times> verror option) outcome
     \<Rightarrow> tree \<times> 's \<times> (ApplyMessagesResponse \<times> verror option) outcome" where
  "withPrefix a (st, vms, Returned (b, None)) = (st, vms, Returned (appendResponse a b, None))"
| "withPrefix a other = other"

text \<open>
  The identifiers of a list of messages, and the messages of a list that the tipset
  processor considers when the identifiers in \<open>seen\<close> are already in its filter: those
  whose identifier is neither in \<open>seen\<close> nor the identifier of an earlier message of
  the list.
\<close>

definition identifiers :: "(signed_message \<Rightarrow> verror + cid) \<Rightarrow> signed_message list \<Rightarrow> cid set" where
  "identifiers Cid ms = set (List.map_filter (\<lambda>m. case Cid m of Inr c \<Rightarrow> Some c | Inl _ \<Rightarrow> None) ms)"

definition considered ::
  "(signed_message \<Rightarrow> verror + cid) \<Rightarrow> cid set \<Rightarrow> signed_message list \<Rightarrow> signed_message list" where
  "considered Cid seen xs =
     nths xs {i. Cid (xs ! i) \<notin> Inr ` seen \<and> (\<forall>j<i. Cid (xs ! j) \<noteq> Cid (xs ! i))}"

section \<open>Properties\<close>

lemmas sentinel_defs = errAccountNotFound_def errNonceTooHigh_def errNonceTooLow_def
  errNonAccountActor_def errSelfSend_def errCannotTransferNegativeValue_def

lemmas tree_defs = NewCachedStateTree_def CachedGetActor_def CachedGetOrCreateActor_def
  GetOrCreateActor_def GetActor_def SetActor_def Commit_def UpgradeActor_def IncNonce_def
  NewVMContext_def

lemmas example_defs = accountA_def tree0_def transferMsg_def staleMsg_def earlyMsg_def
  overdraftMsg_def transferVM_def emptyActor_def AccountActorCodeCid_def
  signedTransfer_def signedStale_def goodBlock_def badBlock_def

subsection \<open>The query path\<close>

text \<open>
  C10. When the state tree has no actor at the target address, \<open>CallQueryMethod\<close>
  returns no return values, exit code 1 and a permanent apply error that wraps the
  lookup failure. The result does not depend on the virtual machine and the storage
  comes back as it went in: the machine is not invoked.
\<close>

theorem CallQueryMethod_missing_actor:
  "st to = Absent \<Longrightarrow>
   CallQueryMethod send st vms to method params from optBh =
     (st, vms, [], 1, Some (ApplyErrorPermanent ActorNotFoundError ''failed to get To actor''))"
  by (simp add: CallQueryMethod_def GetActor_def)

theorem CallQueryMethod_missing_actor_witness:
  "tree0 ''B'' = Absent \<and>
   CallQueryMethod transferVM tree0 () ''B'' ''getBalance'' [] ''A'' None =
     (tree0, (), [], 1, Some (ApplyErrorPermanent ActorNotFoundError ''failed to get To actor''))"
proof -
  have absent: "tree0 ''B'' = Absent" by (simp add: tree0_def)
  from CallQueryMethod_missing_actor [of tree0 "''B''", OF absent] absent show ?thesis by simp
qed

text \<open>
  C9. Whatever the target, method, parameters, sender and block height, and whatever
  the virtual machine does to the overlay, the state tree after \<open>CallQueryMethod\<close> is
  the state tree before it: the overlay is never committed.
\<close>

theorem CallQueryMethod_pure:
  "fst (CallQueryMethod send st vms to method params from optBh) = st"
  by (simp add: CallQueryMethod_def Let_def split: sum.splits)

subsection \<open>Applying one message\<close>

lemma attempt_sender_present:
  assumes "attemptApplyMessage send (NewCachedStateTree st) store msg bh =
             (ct, store', r, Some (RevertError c))"
    and "c \<noteq> AccountNotFound"
  shows "\<exists>fa. st (From msg) = Present fa"
  using assms
  by (auto simp: attemptApplyMessage_def tree_defs sentinel_defs Let_def
      split: option.splits sum.splits if_splits prod.splits slot.splits)

text \<open>
  C2. When \<open>ApplyMessage\<close> returns a permanent or a temporary apply error, the base
  state tree after the call is the base state tree before the call: the overlay is
  not committed and the sender's nonce is not incremented.
\<close>

theorem ApplyMessage_classified_failure_frame:
  assumes "ApplyMessage send st store msg bh = (st', store', Inl e)"
    and "IsApplyErrorPermanent e \<or> IsApplyErrorTemporary e"
  shows "st' = st"
  using assms
  by (auto simp: ApplyMessage_def sentinel_defs
      split: prod.splits option.splits sum.splits if_splits)

theorem ApplyMessage_classified_failure_frame_witness:
  "snd (snd (ApplyMessage transferVM tree0 () staleMsg None)) =
     Inl (ApplyErrorPermanent errNonceTooLow ''apply message failed'')
   \<and> fst (ApplyMessage transferVM tree0 () staleMsg None) = tree0"
proof -
  have res: "snd (snd (ApplyMessage transferVM tree0 () staleMsg None)) =
      Inl (ApplyErrorPermanent errNonceTooLow ''apply message failed'')"
    by (simp add: ApplyMessage_def attemptApplyMessage_def tree_defs sentinel_defs example_defs)
  then have run: "ApplyMessage transferVM tree0 () staleMsg None =
      (fst (ApplyMessage transferVM tree0 () staleMsg None), (),
       Inl (ApplyErrorPermanent errNonceTooLow ''apply message failed''))"
    by (simp add: prod_eq_iff)
  from ApplyMessage_classified_failure_frame [OF run] res show ?thesis by simp
qed

text \<open>
  C1. When the attempt ends with a revert error that is none of the classified causes
  (insufficient funds included; such an error can only come from the virtual machine),
  \<open>ApplyMessage\<close> returns an application result that carries the error, and the base
  state tree after the call is the one before the call with the sender's nonce
  incremented and nothing else changed: the overlay is discarded.
\<close>

theorem ApplyMessage_execution_error:
  assumes "attemptApplyMessage send (NewCachedStateTree st) store msg bh =
             (ct, store', r, Some (RevertError c))"
    and "c \<notin> {AccountNotFound, NonceTooHigh, NonceTooLow, SelfSend, NonAccountActor,
               CannotTransferNegativeValue}"
  shows "\<exists>fa. st (From msg) = Present fa \<and>
           ApplyMessage send st store msg bh =
             (st(From msg := Present (fa\<lparr>Nonce := Nonce fa + 1\<rparr>)), store',
              Inr \<lparr>Receipt = r, ExecutionError = Some (RevertError c)\<rparr>)"
proof -
  from assms(2) have "c \<noteq> AccountNotFound" by simp
  from attempt_sender_present [OF assms(1) this]
  obtain fa where fa: "st (From msg) = Present fa" by blast
  with assms show ?thesis
    by (simp add: ApplyMessage_def sentinel_defs GetActor_def SetActor_def IncNonce_def)
qed

theorem ApplyMessage_execution_error_witness:
  "snd (snd (snd (attemptApplyMessage transferVM (NewCachedStateTree tree0) () overdraftMsg None))) =
     Some (RevertError InsufficientBalance)
   \<and> tree0 ''A'' = Present accountA
   \<and> fst (ApplyMessage transferVM tree0 () overdraftMsg None) =
       tree0(''A'' := Present (accountA\<lparr>Nonce := 4\<rparr>))"
proof -
  let ?a = "attemptApplyMessage transferVM (NewCachedStateTree tree0) () overdraftMsg None"
  have err: "snd (snd (snd ?a)) = Some (RevertError InsufficientBalance)"
    by (simp add: attemptApplyMessage_def tree_defs sentinel_defs example_defs)
  then have run: "?a = (fst ?a, fst (snd ?a), fst (snd (snd ?a)), Some (RevertError InsufficientBalance))"
    by (simp add: prod_eq_iff)
  have cause: "InsufficientBalance \<notin> {AccountNotFound, NonceTooHigh, NonceTooLow, SelfSend,
      NonAccountActor, CannotTransferNegativeValue}"
    by simp
  have sender: "From overdraftMsg = ''A''" "tree0 ''A'' = Present accountA" "Nonce accountA + 1 = 4"
    by (simp_all add: example_defs)
  from ApplyMessage_execution_error [OF run cause]
  obtain fa where "tree0 (From overdraftMsg) = Present fa"
    and "ApplyMessage transferVM tree0 () overdraftMsg None =
      (tree0(From overdraftMsg := Present (fa\<lparr>Nonce := Nonce fa + 1\<rparr>)), fst (snd ?a),
       Inr \<lparr>Receipt = fst (snd (snd ?a)), ExecutionError = Some (RevertError InsufficientBalance)\<rparr>)"
    by blast
  with sender err show ?thesis by simp
qed

text \<open>
  C4. For a message that reaches the nonce check (the sender is on the tree, it is not
  the receiver, the receiver's lookup does not fail, and the sender is an account actor
  or an empty actor, which is upgraded to one): a message nonce below the sender's
  nonce gives the permanent nonce-too-low failure and a message nonce above it gives the
  temporary nonce-too-high failure, both without a change of tree or storage and
  whatever the virtual machine is; when the two are equal the attempt is what the
  virtual machine answers to the context built from the overlay.
\<close>

theorem ApplyMessage_nonce_check:
  assumes "st (From msg) = Present fa"
    and "From msg \<noteq> To msg"
    and "st (To msg) \<noteq> Unreadable"
    and "Code fa = None \<or> Code fa = Some AccountActorCodeCid"
  shows "(MsgNonce msg < Nonce fa \<longrightarrow>
            ApplyMessage send st vms msg bh =
              (st, vms, Inl (ApplyErrorPermanent errNonceTooLow ''apply message failed'')))
       \<and> (MsgNonce msg > Nonce fa \<longrightarrow>
            ApplyMessage send st vms msg bh =
              (st, vms, Inl (ApplyErrorTemporary errNonceTooHigh ''apply message failed'')))
       \<and> (MsgNonce msg = Nonce fa \<longrightarrow>
            (let fa' = (if Code fa = None then fa\<lparr>Code := Some AccountActorCodeCid\<rparr> else fa);
                 toActor = (case st (To msg) of Present a \<Rightarrow> a | _ \<Rightarrow> emptyActor);
                 overlay = \<lparr>ct_st = st, ct_cache = [To msg \<mapsto> toActor, From msg \<mapsto> fa']\<rparr>;
                 out = send (NewVMContext (Some fa') toActor msg overlay vms bh)
             in \<exists>r. attemptApplyMessage send (NewCachedStateTree st) vms msg bh =
                   (\<lparr>ct_st = st, ct_cache = sr_cache out\<rparr>, sr_storage out, r, sr_err out)))"
proof (intro conjI impI)
  assume "MsgNonce msg < Nonce fa"
  with assms show "ApplyMessage send st vms msg bh =
      (st, vms, Inl (ApplyErrorPermanent errNonceTooLow ''apply message failed''))"
    by (cases "st (To msg)")
       (auto simp: ApplyMessage_def attemptApplyMessage_def tree_defs sentinel_defs Let_def)
next
  assume "MsgNonce msg > Nonce fa"
  with assms show "ApplyMessage send st vms msg bh =
      (st, vms, Inl (ApplyErrorTemporary errNonceTooHigh ''apply message failed''))"
    by (cases "st (To msg)")
       (auto simp: ApplyMessage_def attemptApplyMessage_def tree_defs sentinel_defs Let_def)
next
  assume "MsgNonce msg = Nonce fa"
  with assms show
    "let fa' = (if Code fa = None then fa\<lparr>Code := Some AccountActorCodeCid\<rparr> else fa);
         toActor = (case st (To msg) of Present a \<Rightarrow> a | _ \<Rightarrow> emptyActor);
         overlay = \<lparr>ct_st = st, ct_cache = [To msg \<mapsto> toActor, From msg \<mapsto> fa']\<rparr>;
         out = send (NewVMContext (Some fa') toActor msg overlay vms bh)
     in \<exists>r. attemptApplyMessage send (NewCachedStateTree st) vms msg bh =
           (\<lparr>ct_st = st, ct_cache = sr_cache out\<rparr>, sr_storage out, r, sr_err out)"
    by (cases "st (To msg)")
       (auto simp: attemptApplyMessage_def tree_defs sentinel_defs Let_def split: option.splits)
qed

theorem ApplyMessage_nonce_check_witness:
  "tree0 ''A'' = Present accountA \<and> MsgNonce staleMsg < Nonce accountA
   \<and> MsgNonce earlyMsg > Nonce accountA
   \<and> ApplyMessage transferVM tree0 () staleMsg None =
         (tree0, (), Inl (ApplyErrorPermanent errNonceTooLow ''apply message failed''))
   \<and> ApplyMessage transferVM tree0 () earlyMsg None =
         (tree0, (), Inl (ApplyErrorTemporary errNonceTooHigh ''apply message failed''))"
proof -
  have sender: "tree0 (From staleMsg) = Present accountA" "tree0 (From earlyMsg) = Present accountA"
    by (simp_all add: example_defs)
  have other: "From staleMsg \<noteq> To staleMsg" "From earlyMsg \<noteq> To earlyMsg"
    by (simp_all add: example_defs)
  have receiver: "tree0 (To staleMsg) \<noteq> Unreadable" "tree0 (To earlyMsg) \<noteq> Unreadable"
    by (simp_all add: example_defs)
  have account: "Code accountA = None \<or> Code accountA = Some AccountActorCodeCid"
    by (simp add: accountA_def)
  have low: "MsgNonce staleMsg < Nonce accountA" and high: "MsgNonce earlyMsg > Nonce accountA"
    by (simp_all add: example_defs)
  have here: "tree0 ''A'' = Present accountA"
    by (simp add: tree0_def)
  from ApplyMessage_nonce_check [OF sender(1) other(1) receiver(1) account, of transferVM "()" None] low
  have stale: "ApplyMessage transferVM tree0 () staleMsg None =
      (tree0, (), Inl (ApplyErrorPermanent errNonceTooLow ''apply message failed''))"
    by blast
  from ApplyMessage_nonce_check [OF sender(2) other(2) receiver(2) account, of transferVM "()" None] high
  have early: "ApplyMessage transferVM tree0 () earlyMsg None =
      (tree0, (), Inl (ApplyErrorTemporary errNonceTooHigh ''apply message failed''))"
    by blast
  from here low high stale early show ?thesis by blast
qed












subsection \<open>Batches and blocks\<close>

lemma ApplyMessage_error_kinds:
  assumes "ApplyMessage send st vms msg bh = (st', vms', Inl e)"
  shows "IsFault e \<or> IsApplyErrorPermanent e \<or> IsApplyErrorTemporary e"
  using assms
  by (auto simp: ApplyMessage_def GetActor_def SetActor_def Commit_def
      split: prod.splits option.splits sum.splits if_splits slot.splits)

lemma appendResponse_assoc [simp]:
  "appendResponse (appendResponse a b) c = appendResponse a (appendResponse b c)"
  by (simp add: appendResponse_def)

lemma appendResponse_emptyRet [simp]:
  "appendResponse emptyRet a = a" "appendResponse a emptyRet = a"
  by (simp_all add: appendResponse_def emptyRet_def)

lemma withPrefix_withPrefix [simp]:
  "withPrefix a (withPrefix b x) = withPrefix (appendResponse a b) x"
  by (induction b x rule: withPrefix.induct) simp_all

lemma withPrefix_emptyRet [simp]: "withPrefix emptyRet x = x"
  by (induction emptyRet x rule: withPrefix.induct) simp_all

lemma loop_acc:
  "ApplyMessages_loop send bh msgs st vms ret =
     withPrefix ret (ApplyMessages_loop send bh msgs st vms emptyRet)"
proof (induction msgs arbitrary: st vms ret)
  case Nil
  show ?case by simp
next
  case (Cons smsg rest)
  have perm: "ret\<lparr>PermanentFailures := PermanentFailures ret @ [smsg],
                  PermanentErrors := PermanentErrors ret @ [err]\<rparr> =
      appendResponse ret (emptyRet\<lparr>PermanentFailures := PermanentFailures emptyRet @ [smsg],
                                 PermanentErrors := PermanentErrors emptyRet @ [err]\<rparr>)" for err
    by (simp add: appendResponse_def emptyRet_def)
  have temp: "ret\<lparr>TemporaryFailures := TemporaryFailures ret @ [smsg],
                  TemporaryErrors := TemporaryErrors ret @ [err]\<rparr> =
      appendResponse ret (emptyRet\<lparr>TemporaryFailures := TemporaryFailures emptyRet @ [smsg],
                                 TemporaryErrors := TemporaryErrors emptyRet @ [err]\<rparr>)" for err
    by (simp add: appendResponse_def emptyRet_def)
  have succ: "ret\<lparr>SuccessfulMessages := SuccessfulMessages ret @ [smsg],
                  Results := Results ret @ [r]\<rparr> =
      appendResponse ret (emptyRet\<lparr>SuccessfulMessages := SuccessfulMessages emptyRet @ [smsg],
                                 Results := Results emptyRet @ [r]\<rparr>)" for r
    by (simp add: appendResponse_def emptyRet_def)
  obtain st1 vms1 out where step: "ApplyMessage send st vms (Message smsg) bh = (st1, vms1, out)"
    by (metis prod.collapse)
  show ?case
  proof (cases out)
    case (Inr r)
    let ?d = "emptyRet\<lparr>SuccessfulMessages := SuccessfulMessages emptyRet @ [smsg],
                      Results := Results emptyRet @ [r]\<rparr>"
    let ?X = "ApplyMessages_loop send bh rest st1 vms1 emptyRet"
    from step Inr have e1: "ApplyMessages_loop send bh (smsg # rest) st vms ret =
        withPrefix (appendResponse ret ?d) ?X"
      by (simp add: succ Cons.IH [of st1 vms1 "appendResponse ret ?d"])
    from step Inr have e2: "ApplyMessages_loop send bh (smsg # rest) st vms emptyRet =
        withPrefix ?d ?X"
      by (simp add: Cons.IH [of st1 vms1 ?d])
    from e1 e2 show ?thesis by simp
  next
    case (Inl err)
    show ?thesis
    proof (cases "IsFault err")
      case True
      with step Inl show ?thesis by simp
    next
      case nofault: False
      show ?thesis
      proof (cases "IsApplyErrorPermanent err")
        case True
        let ?d = "emptyRet\<lparr>PermanentFailures := PermanentFailures emptyRet @ [smsg],
                          PermanentErrors := PermanentErrors emptyRet @ [err]\<rparr>"
        let ?X = "ApplyMessages_loop send bh rest st1 vms1 emptyRet"
        from step Inl nofault True have e1: "ApplyMessages_loop send bh (smsg # rest) st vms ret =
            withPrefix (appendResponse ret ?d) ?X"
          by (simp add: perm Cons.IH [of st1 vms1 "appendResponse ret ?d"])
        from step Inl nofault True have e2: "ApplyMessages_loop send bh (smsg # rest) st vms emptyRet =
            withPrefix ?d ?X"
          by (simp add: Cons.IH [of st1 vms1 ?d])
        from e1 e2 show ?thesis by simp
      next
        case noperm: False
        show ?thesis
        proof (cases "IsApplyErrorTemporary err")
          case True
          let ?d = "emptyRet\<lparr>TemporaryFailures := TemporaryFailures emptyRet @ [smsg],
                            TemporaryErrors := TemporaryErrors emptyRet @ [err]\<rparr>"
          let ?X = "ApplyMessages_loop send bh rest st1 vms1 emptyRet"
          from step Inl nofault noperm True
          have e1: "ApplyMessages_loop send bh (smsg # rest) st vms ret =
              withPrefix (appendResponse ret ?d) ?X"
            by (simp add: temp Cons.IH [of st1 vms1 "appendResponse ret ?d"])
          from step Inl nofault noperm True
          have e2: "ApplyMessages_loop send bh (smsg # rest) st vms emptyRet = withPrefix ?d ?X"
            by (simp add: Cons.IH [of st1 vms1 ?d])
          from e1 e2 show ?thesis by simp
        next
          case False
          with step Inl nofault noperm show ?thesis by simp
        qed
      qed
    qed
  qed
qed

lemma ApplyMessages_Cons:
  "ApplyMessages send (smsg # rest) st vms bh =
     (case ApplyMessage send st vms (Message smsg) bh of
        (st1, vms1, Inl err) \<Rightarrow>
          if IsFault err then (st1, vms1, Returned (emptyRet, Some err))
          else if IsApplyErrorPermanent err then
            withPrefix (emptyRet\<lparr>PermanentFailures := [smsg], PermanentErrors := [err]\<rparr>)
              (ApplyMessages send rest st1 vms1 bh)
          else
            withPrefix (emptyRet\<lparr>TemporaryFailures := [smsg], TemporaryErrors := [err]\<rparr>)
              (ApplyMessages send rest st1 vms1 bh)
      | (st1, vms1, Inr r) \<Rightarrow>
          withPrefix (emptyRet\<lparr>SuccessfulMessages := [smsg], Results := [r]\<rparr>)
            (ApplyMessages send rest st1 vms1 bh))"
proof -
  obtain st1 vms1 out where step: "ApplyMessage send st vms (Message smsg) bh = (st1, vms1, out)"
    by (metis prod.collapse)
  have nil: "SuccessfulMessages emptyRet = []" "Results emptyRet = []"
    "PermanentFailures emptyRet = []" "PermanentErrors emptyRet = []"
    "TemporaryFailures emptyRet = []" "TemporaryErrors emptyRet = []"
    by (simp_all add: emptyRet_def)
  show ?thesis
  proof (cases out)
    case (Inr r)
    with step show ?thesis
      unfolding ApplyMessages_def
      by (simp add: nil loop_acc [of send bh rest st1 vms1 "emptyRet\<lparr>SuccessfulMessages := [smsg], Results := [r]\<rparr>"])
  next
    case (Inl err)
    from step Inl have "IsFault err \<or> IsApplyErrorPermanent err \<or> IsApplyErrorTemporary err"
      by (auto dest: ApplyMessage_error_kinds)
    with step Inl show ?thesis
      unfolding ApplyMessages_def
      by (auto simp add: nil
          loop_acc [of send bh rest st1 vms1 "emptyRet\<lparr>PermanentFailures := [smsg], PermanentErrors := [err]\<rparr>"]
          loop_acc [of send bh rest st1 vms1 "emptyRet\<lparr>TemporaryFailures := [smsg], TemporaryErrors := [err]\<rparr>"])
  qed
qed

lemma withPrefix_ok:
  "withPrefix d x = (st', vms', Returned (ret, None)) \<longleftrightarrow>
     (\<exists>ret2. x = (st', vms', Returned (ret2, None)) \<and> ret = appendResponse d ret2)"
  by (induction d x rule: withPrefix.induct) auto

lemma ApplyMessages_Nil: "ApplyMessages send [] st vms bh = (st, vms, Returned (emptyRet, None))"
  by (simp add: ApplyMessages_def)


lemma ApplyMessages_shape:
  assumes "ApplyMessages send msgs st vms bh = (st', vms', Returned (ret, None))"
  shows "length (Results ret) = length (SuccessfulMessages ret)
       \<and> length (PermanentErrors ret) = length (PermanentFailures ret)
       \<and> length (TemporaryErrors ret) = length (TemporaryFailures ret)
       \<and> mset (SuccessfulMessages ret) + mset (PermanentFailures ret)
           + mset (TemporaryFailures ret) = mset msgs
       \<and> list_all IsApplyErrorPermanent (PermanentErrors ret)
       \<and> list_all IsApplyErrorTemporary (TemporaryErrors ret)"
  using assms
proof (induction msgs arbitrary: st vms ret)
  case Nil
  then show ?case by (auto simp: ApplyMessages_Nil emptyRet_def)
next
  case (Cons smsg rest)
  obtain st1 vms1 out where step: "ApplyMessage send st vms (Message smsg) bh = (st1, vms1, out)"
    by (metis prod.collapse)
  show ?case
  proof (cases out)
    case (Inr r)
    with Cons.prems step obtain ret2
      where rest: "ApplyMessages send rest st1 vms1 bh = (st', vms', Returned (ret2, None))"
        and ret: "ret = appendResponse (emptyRet\<lparr>SuccessfulMessages := [smsg], Results := [r]\<rparr>) ret2"
      by (auto simp: ApplyMessages_Cons withPrefix_ok)
    from Cons.IH [OF rest] ret show ?thesis
      by (simp add: appendResponse_def emptyRet_def)
  next
    case (Inl err)
    with Cons.prems step have nofault: "\<not> IsFault err"
      by (auto simp: ApplyMessages_Cons)
    show ?thesis
    proof (cases "IsApplyErrorPermanent err")
      case True
      with Inl nofault Cons.prems step obtain ret2
        where rest: "ApplyMessages send rest st1 vms1 bh = (st', vms', Returned (ret2, None))"
          and ret: "ret = appendResponse (emptyRet\<lparr>PermanentFailures := [smsg], PermanentErrors := [err]\<rparr>) ret2"
        by (auto simp: ApplyMessages_Cons withPrefix_ok)
      from Cons.IH [OF rest] ret True show ?thesis
        by (simp add: appendResponse_def emptyRet_def)
    next
      case False
      with Inl nofault step have temp: "IsApplyErrorTemporary err"
        by (auto dest: ApplyMessage_error_kinds)
      from False Inl nofault Cons.prems step obtain ret2
        where rest: "ApplyMessages send rest st1 vms1 bh = (st', vms', Returned (ret2, None))"
          and ret: "ret = appendResponse (emptyRet\<lparr>TemporaryFailures := [smsg], TemporaryErrors := [err]\<rparr>) ret2"
        by (auto simp: ApplyMessages_Cons withPrefix_ok)
      from Cons.IH [OF rest] ret temp show ?thesis
        by (simp add: appendResponse_def emptyRet_def)
    qed
  qed
qed



lemma loop_append:
  "ApplyMessages_loop send bh (xs @ ys) st vms ret =
     (case ApplyMessages_loop send bh xs st vms ret of
        (st1, vms1, Returned (ret1, None)) \<Rightarrow> ApplyMessages_loop send bh ys st1 vms1 ret1
      | other \<Rightarrow> other)"
proof (induction xs arbitrary: st vms ret)
  case Nil
  show ?case by simp
next
  case (Cons x xs)
  show ?case
    by (simp add: Cons.IH split: prod.splits sum.splits)
qed

text \<open>
  C7. \<open>ApplyMessages\<close> goes through the messages in order. The empty batch returns
  the empty response. A batch with one more message at its end is the batch without
  it, followed by \<open>ApplyMessage\<close> on the last message from the tree and storage the
  batch left: a fault of the batch stays the outcome (the first fault aborts), a fault
  of the last message is returned with the empty response, a permanent error appends
  the message and the error to the permanent lists, a temporary error to the temporary
  lists, and an application result appends the message to the successful messages and
  the result to the results.
\<close>

theorem ApplyMessages_partition:
  "ApplyMessages send [] st vms bh = (st, vms, Returned (emptyRet, None))
   \<and> ApplyMessages send (msgs @ [smsg]) st vms bh =
     (case ApplyMessages send msgs st vms bh of
        (st1, vms1, Returned (ret, None)) \<Rightarrow>
          (case ApplyMessage send st1 vms1 (Message smsg) bh of
             (st2, vms2, Inl err) \<Rightarrow>
               if IsFault err then (st2, vms2, Returned (emptyRet, Some err))
               else if IsApplyErrorPermanent err then
                 (st2, vms2,
                  Returned (ret\<lparr>PermanentFailures := PermanentFailures ret @ [smsg],
                                 PermanentErrors := PermanentErrors ret @ [err]\<rparr>, None))
               else
                 (st2, vms2,
                  Returned (ret\<lparr>TemporaryFailures := TemporaryFailures ret @ [smsg],
                                 TemporaryErrors := TemporaryErrors ret @ [err]\<rparr>, None))
           | (st2, vms2, Inr r) \<Rightarrow>
               (st2, vms2,
                Returned (ret\<lparr>SuccessfulMessages := SuccessfulMessages ret @ [smsg],
                               Results := Results ret @ [r]\<rparr>, None)))
      | other \<Rightarrow> other)"
  by (auto simp: ApplyMessages_def loop_append dest: ApplyMessage_error_kinds
      split: prod.splits sum.splits outcome.splits option.splits)

theorem ApplyMessages_partition_witness:
  "snd (snd (ApplyMessages transferVM ([signedTransfer] @ [signedStale]) tree0 () None)) =
     Returned
       (\<lparr>Results = [\<lparr>Receipt = Some \<lparr>ExitCode = 0, Return = []\<rparr>, ExecutionError = None\<rparr>],
         PermanentFailures = [signedStale], TemporaryFailures = [],
         SuccessfulMessages = [signedTransfer],
         PermanentErrors = [ApplyErrorPermanent errNonceTooLow ''apply message failed''],
         TemporaryErrors = []\<rparr>, None)"
proof -
  have first: "ApplyMessages transferVM [signedTransfer] tree0 () None =
      (fst (ApplyMessage transferVM tree0 () transferMsg None), (),
       Returned (emptyRet\<lparr>SuccessfulMessages := [signedTransfer],
         Results := [\<lparr>Receipt = Some \<lparr>ExitCode = 0, Return = []\<rparr>, ExecutionError = None\<rparr>]\<rparr>, None))"
    by (simp add: ApplyMessages_def ApplyMessage_def attemptApplyMessage_def tree_defs
        sentinel_defs example_defs emptyRet_def)
  have second: "snd (snd (ApplyMessage transferVM (fst (ApplyMessage transferVM tree0 () transferMsg None))
        () (Message signedStale) None)) =
      Inl (ApplyErrorPermanent errNonceTooLow ''apply message failed'')"
    by (simp add: ApplyMessage_def attemptApplyMessage_def tree_defs sentinel_defs example_defs)
  from ApplyMessages_partition [of transferVM tree0 "()" None "[signedTransfer]" signedStale]
    first second
  show ?thesis
    by (simp add: emptyRet_def sentinel_defs split: prod.splits)
qed



subsection \<open>Tipsets\<close>

lemma identifiers_iff: "c \<in> identifiers Cid ms \<longleftrightarrow> (\<exists>m\<in>set ms. Cid m = Inr c)"
  by (induction ms) (auto simp: identifiers_def List.map_filter_simps split: sum.splits)

lemma identifiers_Nil [simp]: "identifiers Cid [] = {}"
  by (auto simp: identifiers_iff)

lemma identifiers_Cons: "Cid m = Inr c \<Longrightarrow> identifiers Cid (m # ms) = insert c (identifiers Cid ms)"
  by (auto simp: identifiers_iff)

lemma identifiers_append [simp]:
  "identifiers Cid (xs @ ys) = identifiers Cid xs \<union> identifiers Cid ys"
  by (auto simp: identifiers_iff)

lemma considered_Nil [simp]: "considered Cid F [] = []"
  by (simp add: considered_def)

lemma considered_Cons:
  assumes "Cid x = Inr c"
  shows "considered Cid F (x # xs) =
           (if c \<in> F then considered Cid F xs else x # considered Cid (insert c F) xs)"
proof -
  let ?A = "{i. Cid ((x # xs) ! i) \<notin> Inr ` F \<and> (\<forall>j<i. Cid ((x # xs) ! j) \<noteq> Cid ((x # xs) ! i))}"
  have zero: "0 \<in> ?A \<longleftrightarrow> c \<notin> F"
    using assms by auto
  have shift: "{j. Suc j \<in> ?A} =
      {j. Cid (xs ! j) \<notin> Inr ` (insert c F) \<and> (\<forall>k<j. Cid (xs ! k) \<noteq> Cid (xs ! j))}" if "c \<notin> F"
    using assms by (auto simp: All_less_Suc2)
  have same: "{j. Suc j \<in> ?A} =
      {j. Cid (xs ! j) \<notin> Inr ` F \<and> (\<forall>k<j. Cid (xs ! k) \<noteq> Cid (xs ! j))}" if "c \<in> F"
    using assms that by (auto simp: All_less_Suc2 image_iff)
  show ?thesis
    unfolding considered_def nths_Cons
    using zero shift same by (cases "c \<in> F") simp_all
qed

lemma considered_append:
  assumes "\<forall>m\<in>set xs. \<exists>c. Cid m = Inr c"
  shows "considered Cid F (xs @ ys) =
           considered Cid F xs @ considered Cid (F \<union> identifiers Cid xs) ys"
  using assms
proof (induction xs arbitrary: F)
  case Nil
  show ?case by simp
next
  case (Cons x xs)
  then obtain c where c: "Cid x = Inr c" by auto
  from Cons.prems have rest: "\<forall>m\<in>set xs. \<exists>c. Cid m = Inr c" by simp
  show ?case
  proof (cases "c \<in> F")
    case True
    then have "F \<union> identifiers Cid (x # xs) = F \<union> identifiers Cid xs"
      by (auto simp: identifiers_Cons [of Cid _ c, OF c])
    with True c Cons.IH [OF rest, of F] show ?thesis
      by (simp add: considered_Cons [of Cid _ c, OF c])
  next
    case False
    have "F \<union> identifiers Cid (x # xs) = insert c F \<union> identifiers Cid xs"
      by (auto simp: identifiers_Cons [of Cid _ c, OF c])
    with False c Cons.IH [OF rest, of "insert c F"] show ?thesis
      by (simp add: considered_Cons [of Cid _ c, OF c])
  qed
qed

lemma considered_props:
  assumes "\<forall>m\<in>set xs. \<exists>c. Cid m = Inr c"
  shows "distinct (map Cid (considered Cid F xs))
       \<and> identifiers Cid (considered Cid F xs) = identifiers Cid xs - F"
  using assms
proof (induction xs arbitrary: F)
  case Nil
  show ?case by simp
next
  case (Cons x xs)
  then obtain c where c: "Cid x = Inr c" by auto
  from Cons.prems have rest: "\<forall>m\<in>set xs. \<exists>c. Cid m = Inr c" by simp
  show ?case
  proof (cases "c \<in> F")
    case True
    with c Cons.IH [OF rest, of F] show ?thesis
      by (auto simp: considered_Cons [of Cid _ c, OF c] identifiers_Cons [of Cid _ c, OF c])
  next
    case False
    note ih = Cons.IH [OF rest, of "insert c F"]
    have "Cid x \<notin> Cid ` set (considered Cid (insert c F) xs)"
    proof
      assume "Cid x \<in> Cid ` set (considered Cid (insert c F) xs)"
      then obtain m where "m \<in> set (considered Cid (insert c F) xs)" "Cid m = Inr c"
        using c by auto
      then have "c \<in> identifiers Cid (considered Cid (insert c F) xs)"
        by (auto simp: identifiers_iff)
      with ih show False by simp
    qed
    with False c ih show ?thesis
      by (auto simp: considered_Cons [of Cid _ c, OF c] identifiers_Cons [of Cid _ c, OF c])
  qed
qed

lemma filter_considered:
  assumes "ProcessTipSet_filter Cid xs msgs F = Inr (msgs', F')"
  shows "msgs' = msgs @ considered Cid F xs \<and> F' = F \<union> identifiers Cid xs
       \<and> (\<forall>m\<in>set xs. \<exists>c. Cid m = Inr c)"
  using assms
proof (induction xs arbitrary: msgs F)
  case Nil
  then show ?case by simp
next
  case (Cons x xs)
  from Cons.prems obtain c where c: "Cid x = Inr c"
    by (cases "Cid x") auto
  show ?case
  proof (cases "c \<in> F")
    case True
    with c Cons.prems have "ProcessTipSet_filter Cid xs msgs F = Inr (msgs', F')" by simp
    from Cons.IH [OF this] True c show ?thesis
      by (auto simp: considered_Cons [of Cid _ c, OF c] identifiers_Cons [of Cid _ c, OF c])
  next
    case False
    with c Cons.prems
    have "ProcessTipSet_filter Cid xs (msgs @ [x]) (insert c F) = Inr (msgs', F')" by simp
    from Cons.IH [OF this] False c show ?thesis
      by (auto simp: considered_Cons [of Cid _ c, OF c] identifiers_Cons [of Cid _ c, OF c])
  qed
qed

lemma add_identifiers:
  assumes "ProcessTipSet_add Cid ms S = Inr S'"
  shows "S' = S \<union> identifiers Cid ms"
  using assms
proof (induction ms arbitrary: S)
  case Nil
  then show ?case by simp
next
  case (Cons m ms)
  from Cons.prems obtain c where c: "Cid m = Inr c"
    by (cases "Cid m") auto
  with Cons.prems have "ProcessTipSet_add Cid ms (insert c S) = Inr S'" by simp
  from Cons.IH [OF this] show ?case
    by (auto simp: identifiers_Cons [of Cid _ c, OF c])
qed

lemma ApplyMessages_append:
  "ApplyMessages send (xs @ ys) st vms bh =
     (case ApplyMessages send xs st vms bh of
        (st1, vms1, Returned (ret1, None)) \<Rightarrow> withPrefix ret1 (ApplyMessages send ys st1 vms1 bh)
      | other \<Rightarrow> other)"
  unfolding ApplyMessages_def loop_append
  by (auto simp: loop_acc [symmetric] split: prod.splits outcome.splits option.splits)

lemma ProcessTipSet_loop_considered:
  assumes "ProcessTipSet_loop send Cid bh tips st vms F res = (st', vms', Returned (res', None))"
  shows "\<exists>amRes.
           ApplyMessages send (considered Cid F (concat (map Messages tips))) st vms bh =
             (st', vms', Returned (amRes, None))
         \<and> res' = \<lparr>ts_Results = ts_Results res @ Results amRes,
                   Successes = Successes res \<union> identifiers Cid (SuccessfulMessages amRes),
                   Failures = Failures res \<union> identifiers Cid (PermanentFailures amRes)
                                \<union> identifiers Cid (TemporaryFailures amRes)\<rparr>
         \<and> (\<forall>m\<in>set (concat (map Messages tips)). \<exists>c. Cid m = Inr c)"
  using assms
proof (induction tips arbitrary: st vms F res)
  case Nil
  then show ?case
    by (auto simp: ApplyMessages_Nil emptyRet_def)
next
  case (Cons blk tips)
  from Cons.prems obtain msgs F1
    where flt: "ProcessTipSet_filter Cid (Messages blk) [] F = Inr (msgs, F1)"
    by (auto split: sum.splits)
  from filter_considered [OF flt]
  have msgs: "msgs = considered Cid F (Messages blk)"
    and F1: "F1 = F \<union> identifiers Cid (Messages blk)"
    and ids: "\<forall>m\<in>set (Messages blk). \<exists>c. Cid m = Inr c"
    by simp_all
  from Cons.prems flt obtain st1 vms1 amRes1
    where am1: "ApplyMessages send msgs st vms bh = (st1, vms1, Returned (amRes1, None))"
    by (auto split: prod.splits outcome.splits option.splits)
  from Cons.prems flt am1 obtain succ fail1 fail2
    where succ: "ProcessTipSet_add Cid (SuccessfulMessages amRes1) (Successes res) = Inr succ"
      and fail1: "ProcessTipSet_add Cid (PermanentFailures amRes1) (Failures res) = Inr fail1"
      and fail2: "ProcessTipSet_add Cid (TemporaryFailures amRes1) fail1 = Inr fail2"
    by (auto split: sum.splits)
  let ?res1 = "\<lparr>ts_Results = ts_Results res @ Results amRes1, Successes = succ, Failures = fail2\<rparr>"
  from Cons.prems flt am1 succ fail1 fail2
  have rest: "ProcessTipSet_loop send Cid bh tips st1 vms1 F1 ?res1 = (st', vms', Returned (res', None))"
    by simp
  from Cons.IH [OF rest] obtain amRes2
    where am2: "ApplyMessages send (considered Cid F1 (concat (map Messages tips))) st1 vms1 bh =
        (st', vms', Returned (amRes2, None))"
      and res': "res' = \<lparr>ts_Results = ts_Results ?res1 @ Results amRes2,
                   Successes = Successes ?res1 \<union> identifiers Cid (SuccessfulMessages amRes2),
                   Failures = Failures ?res1 \<union> identifiers Cid (PermanentFailures amRes2)
                                \<union> identifiers Cid (TemporaryFailures amRes2)\<rparr>"
      and ids2: "\<forall>m\<in>set (concat (map Messages tips)). \<exists>c. Cid m = Inr c"
    by blast
  have split: "considered Cid F (concat (map Messages (blk # tips))) =
      msgs @ considered Cid F1 (concat (map Messages tips))"
    using considered_append [OF ids] msgs F1 by simp
  have run: "ApplyMessages send (considered Cid F (concat (map Messages (blk # tips)))) st vms bh =
      (st', vms', Returned (appendResponse amRes1 amRes2, None))"
    unfolding split ApplyMessages_append using am1 am2 by simp
  from add_identifiers [OF succ] add_identifiers [OF fail1] add_identifiers [OF fail2] res'
  have "res' = \<lparr>ts_Results = ts_Results res @ Results (appendResponse amRes1 amRes2),
        Successes = Successes res \<union> identifiers Cid (SuccessfulMessages (appendResponse amRes1 amRes2)),
        Failures = Failures res \<union> identifiers Cid (PermanentFailures (appendResponse amRes1 amRes2))
                      \<union> identifiers Cid (TemporaryFailures (appendResponse amRes1 amRes2))\<rparr>"
    by (auto simp: appendResponse_def)
  with run ids ids2 show ?case by auto
qed

lemma identifiers_set: "set xs = set ys \<Longrightarrow> identifiers Cid xs = identifiers Cid ys"
  by (auto simp: identifiers_iff)

lemma distinct_identifiers_disjoint:
  assumes "distinct (map Cid (xs @ ys))"
  shows "identifiers Cid xs \<inter> identifiers Cid ys = {}"
proof -
  from assms have "Cid ` set xs \<inter> Cid ` set ys = {}" by simp
  then show ?thesis
    by (auto simp: identifiers_iff) (metis IntI emptyE imageI)
qed

text \<open>
  C5. When \<open>ProcessTipSet\<close> returns a response, let \<open>all\<close> be the messages of the
  blocks in ticket-sorted order and \<open>firsts\<close> those of them whose identifier is not the
  identifier of an earlier one. Then the response and the state are those of
  \<open>ApplyMessages\<close> on \<open>firsts\<close> (a later occurrence of an identifier is never applied,
  whatever the outcome of the first one), the successes are the identifiers of its
  successful messages and the failures those of its permanent and temporary failures,
  no identifier is in both sets, and every identifier of \<open>all\<close> is in one of them.
\<close>

theorem ProcessTipSet_deduplicates:
  assumes "ProcessTipSet send Cid ts st vms = (st', vms', Returned (res, None))"
  shows "let all = concat (map Messages (SortBlocks ts));
             firsts = nths all {i. \<forall>j<i. Cid (all ! j) \<noteq> Cid (all ! i)}
         in (\<exists>h amRes. TipSetHeight ts = Inr h
               \<and> ApplyMessages send firsts st vms (Some h) = (st', vms', Returned (amRes, None))
               \<and> ts_Results res = Results amRes
               \<and> Successes res = identifiers Cid (SuccessfulMessages amRes)
               \<and> Failures res = identifiers Cid (PermanentFailures amRes @ TemporaryFailures amRes))
          \<and> Successes res \<inter> Failures res = {}
          \<and> Successes res \<union> Failures res = identifiers Cid all
          \<and> (\<forall>m\<in>set all. \<exists>c. Cid m = Inr c)"
proof -
  let ?all = "concat (map Messages (SortBlocks ts))"
  let ?firsts = "nths ?all {i. \<forall>j<i. Cid (?all ! j) \<noteq> Cid (?all ! i)}"
  have firsts: "?firsts = considered Cid {} ?all"
    by (simp add: considered_def)
  from assms obtain h where h: "TipSetHeight ts = Inr h"
    by (cases "TipSetHeight ts") (auto simp: ProcessTipSet_def)
  with assms
  have loop: "ProcessTipSet_loop send Cid (Some h) (SortBlocks ts) st vms {} emptyRes =
      (st', vms', Returned (res, None))"
    by (simp add: ProcessTipSet_def)
  from ProcessTipSet_loop_considered [OF loop] obtain amRes
    where run: "ApplyMessages send (considered Cid {} ?all) st vms (Some h) =
        (st', vms', Returned (amRes, None))"
      and res: "res = \<lparr>ts_Results = ts_Results emptyRes @ Results amRes,
          Successes = Successes emptyRes \<union> identifiers Cid (SuccessfulMessages amRes),
          Failures = Failures emptyRes \<union> identifiers Cid (PermanentFailures amRes)
                       \<union> identifiers Cid (TemporaryFailures amRes)\<rparr>"
      and ids: "\<forall>m\<in>set ?all. \<exists>c. Cid m = Inr c"
    by blast
  from res have results: "ts_Results res = Results amRes"
    and succ: "Successes res = identifiers Cid (SuccessfulMessages amRes)"
    and fail: "Failures res = identifiers Cid (PermanentFailures amRes @ TemporaryFailures amRes)"
    by (simp_all add: emptyRes_def)
  let ?S = "SuccessfulMessages amRes" and ?P = "PermanentFailures amRes"
    and ?T = "TemporaryFailures amRes"
  from ApplyMessages_shape [OF run]
  have parts: "mset (?S @ ?P @ ?T) = mset (considered Cid {} ?all)"
    by (simp add: ac_simps)
  from considered_props [OF ids, of "{}"]
  have dist: "distinct (map Cid (considered Cid {} ?all))"
    and same: "identifiers Cid (considered Cid {} ?all) = identifiers Cid ?all"
    by simp_all
  from parts have "mset (map Cid (?S @ ?P @ ?T)) = mset (map Cid (considered Cid {} ?all))"
    by (metis mset_map)
  with dist have "distinct (map Cid (?S @ (?P @ ?T)))"
    by (metis mset_eq_imp_distinct_iff)
  from distinct_identifiers_disjoint [OF this] succ fail
  have disjoint: "Successes res \<inter> Failures res = {}"
    by simp
  from parts have "set (?S @ ?P @ ?T) = set (considered Cid {} ?all)"
    by (rule mset_eq_setD)
  then have "identifiers Cid (?S @ ?P @ ?T) = identifiers Cid (considered Cid {} ?all)"
    by (rule identifiers_set)
  with succ fail same have cover: "Successes res \<union> Failures res = identifiers Cid ?all"
    by simp
  from h run results succ fail disjoint cover ids firsts show ?thesis
    unfolding Let_def by auto
qed

theorem ProcessTipSet_deduplicates_witness:
  "snd (snd (ProcessTipSet transferVM testCid [badBlock, goodBlock] tree0 ())) =
     Returned
       (\<lparr>ts_Results = [\<lparr>Receipt = Some \<lparr>ExitCode = 0, Return = []\<rparr>, ExecutionError = None\<rparr>],
         Successes = {''bafy-transfer''}, Failures = {''bafy-stale''}\<rparr>, None)
   \<and> {''bafy-transfer''} \<inter> {''bafy-stale''} = ({} :: cid set)
   \<and> {''bafy-transfer''} \<union> {''bafy-stale''} =
       identifiers testCid (concat (map Messages (SortBlocks [badBlock, goodBlock])))"
proof -
  let ?run = "ProcessTipSet transferVM testCid [badBlock, goodBlock] tree0 ()"
  let ?res = "\<lparr>ts_Results = [\<lparr>Receipt = Some \<lparr>ExitCode = 0, Return = []\<rparr>, ExecutionError = None\<rparr>],
         Successes = {''bafy-transfer''}, Failures = {''bafy-stale''}\<rparr>"
  have sorted: "SortBlocks [badBlock, goodBlock] = [goodBlock, badBlock]"
    by (simp add: SortBlocks_def goodBlock_def badBlock_def)
  have out: "snd (snd ?run) = Returned (?res, None)"
    by (simp add: ProcessTipSet_def TipSetHeight_def sorted)
       (simp add: ApplyMessages_def ApplyMessage_def attemptApplyMessage_def tree_defs
          sentinel_defs example_defs testCid_def emptyRet_def emptyRes_def Let_def)
  then have run: "?run = (fst ?run, fst (snd ?run), Returned (?res, None))"
    by (simp add: prod_eq_iff)
  from ProcessTipSet_deduplicates [OF run] out show ?thesis
    by (simp add: Let_def)
qed

end
